theory Spec2Isabelle
  imports Main "HOL-Library.Sublist"
begin

section \<open>Values, JavaScript objects and errors\<close>

text \<open>
  Scalar values of the catalogue records. Timestamps (\<open>createdAt\<close>, \<open>updated_at\<close>, a
  JavaScript \<open>Date\<close>) are numbers: milliseconds since the epoch.
\<close>

datatype val = VStr string | VNum int | VBool bool

text \<open>
  A JavaScript object literal is an association list of its own properties; a property
  that is \<open>undefined\<close> is absent. Property access is \<open>map_of\<close>, \<open>Object.keys\<close> is
  \<open>map fst\<close>.
\<close>

type_synonym js_object = "(string \<times> val) list"

text \<open>JavaScript truthiness of a property value, as \<open>if (granule.published)\<close> reads it.\<close>

fun truthy :: "val option \<Rightarrow> bool" where
  "truthy None = False"
| "truthy (Some (VBool b)) = b"
| "truthy (Some (VNum n)) = (n \<noteq> 0)"
| "truthy (Some (VStr s)) = (s \<noteq> [])"

text \<open>
  The errors a caller can see. \<open>RecordDoesNotExist\<close> (with the table name and the
  identifiers of its message) and \<open>DeletePublishedGranule\<close> (with its message) are the
  classes of \<open>@cumulus/errors\<close>; \<open>StoreError n m\<close> is any error the store's client throws,
  with its \<open>name\<close> property (absent when \<open>None\<close>) and its message.
\<close>

datatype error =
    RecordDoesNotExist string js_object
  | DeletePublishedGranule string
  | StoreError "string option" string

fun error_name :: "error \<Rightarrow> string option" where
  "error_name (RecordDoesNotExist tbl ids) = Some ''RecordDoesNotExist''"
| "error_name (DeletePublishedGranule m) = Some ''DeletePublishedGranule''"
| "error_name (StoreError n m) = n"

section \<open>The document store behind the granule model\<close>

text \<open>
  A stored item maps attribute names to values; the granules table maps the value of the
  hash key \<open>granuleId\<close> to the item.
\<close>

type_synonym item = "string \<rightharpoonup> val"

type_synonym table = "string \<rightharpoonup> item"

text \<open>
  One clause of a \<open>SET\<close> update expression: \<open>#f = :f\<close> or
  \<open>#f = if_not_exists(#f, :f)\<close>.
\<close>

datatype set_action = SetValue | SetIfNotExists

text \<open>
  The condition expressions \<open>_storeGranuleRecord\<close> writes:
  \<open>attribute_not_exists(f)\<close>, \<open>:v >= #f\<close>, \<open>#f <> :v\<close>, \<open>or\<close>, \<open>and\<close>.
\<close>

datatype cond =
    AttributeNotExists string
  | ValueGeAttr string string
  | AttrNeValue string string
  | COr cond cond
  | CAnd cond cond

record update_params =
  Key :: "(string \<times> val option) list"
  ExpressionAttributeValues :: "string \<rightharpoonup> val"
  UpdateExpression :: "string \<rightharpoonup> set_action"
  ConditionExpression :: "cond option"

datatype update_output = UpdateItemOutput

text \<open>The value placeholders a condition expression names.\<close>

fun cond_values :: "cond \<Rightarrow> string list" where
  "cond_values (AttributeNotExists f) = []"
| "cond_values (ValueGeAttr v f) = [v]"
| "cond_values (AttrNeValue f v) = [v]"
| "cond_values (COr a b) = cond_values a @ cond_values b"
| "cond_values (CAnd a b) = cond_values a @ cond_values b"

text \<open>
  The store's \<open>>=\<close>: numbers by value, strings by their bytes, false between values of
  different types.
\<close>

fun val_ge :: "val \<Rightarrow> val \<Rightarrow> bool" where
  "val_ge (VNum a) (VNum b) = (b \<le> a)"
| "val_ge (VStr a) (VStr b) =
     (\<not> ord_class.lexordp (map of_char a :: nat list) (map of_char b))"
| "val_ge a b = False"

text \<open>
  A condition is evaluated on the item as stored before the write (the empty item when
  there is none). A comparison \<open>>=\<close> with an absent attribute is false; \<open><>\<close> with an
  absent attribute is true.
\<close>

fun eval_cond :: "(string \<rightharpoonup> val) \<Rightarrow> item \<Rightarrow> cond \<Rightarrow> bool" where
  "eval_cond vals old (AttributeNotExists f) = (old f = None)"
| "eval_cond vals old (ValueGeAttr v f) =
     (case (vals v, old f) of (Some a, Some b) \<Rightarrow> val_ge a b | _ \<Rightarrow> False)"
| "eval_cond vals old (AttrNeValue f v) =
     (case (old f, vals v) of
        (Some a, Some b) \<Rightarrow> a \<noteq> b
      | (None, Some b) \<Rightarrow> True
      | _ \<Rightarrow> False)"
| "eval_cond vals old (COr a b) = (eval_cond vals old a \<or> eval_cond vals old b)"
| "eval_cond vals old (CAnd a b) = (eval_cond vals old a \<and> eval_cond vals old b)"

text \<open>The item after the \<open>SET\<close> clauses, each evaluated on the item before the write.\<close>

definition apply_set :: "update_params \<Rightarrow> item \<Rightarrow> item" where
  "apply_set p old =
     (\<lambda>f. case UpdateExpression p f of
            None \<Rightarrow> old f
          | Some SetValue \<Rightarrow> ExpressionAttributeValues p f
          | Some SetIfNotExists \<Rightarrow>
              (case old f of None \<Rightarrow> ExpressionAttributeValues p f | Some v \<Rightarrow> Some v))"

text \<open>
  \<open>DocumentClient.update\<close> on a table whose hash key is \<open>hashName\<close>: the request is
  refused with a \<open>ValidationException\<close> when the key is not a string or the condition
  names a value that is not supplied; it is rejected with a
  \<open>ConditionalCheckFailedException\<close>, the table untouched, when the condition is false on
  the stored item; otherwise the item is created or updated in place.
\<close>

definition dynamodb_update ::
  "string \<Rightarrow> update_params \<Rightarrow> table \<Rightarrow> (error + update_output) \<times> table" where
  "dynamodb_update hashName p t =
     (case map_of (Key p) hashName of
        Some (Some (VStr k)) \<Rightarrow>
          (let conds = (case ConditionExpression p of None \<Rightarrow> [] | Some c \<Rightarrow> [c]) in
           if \<not> list_all (\<lambda>v. ExpressionAttributeValues p v \<noteq> None)
                  (concat (map cond_values conds))
           then (Inl (StoreError (Some ''ValidationException'')
                        ''An expression attribute value used in expression is not defined''), t)
           else
             (let old = (case t k of None \<Rightarrow> Map.empty | Some it \<Rightarrow> it) in
              if \<not> list_all (eval_cond (ExpressionAttributeValues p) old) conds
              then (Inl (StoreError (Some ''ConditionalCheckFailedException'')
                           ''The conditional request failed''), t)
              else (Inr UpdateItemOutput, t(k \<mapsto> (apply_set p old)(hashName \<mapsto> VStr k)))))
      | _ \<Rightarrow>
          (Inl (StoreError (Some ''ValidationException'')
                  ''The provided key element does not match the schema''), t))"

section \<open>The granule model\<close>

text \<open>
  Modelled from the spec: \<open>Manager._buildDocClientUpdateParams\<close> of \<open>models/base.js\<close>, which
  is not among the sources. Following section 4.4 of the specification, a field on the
  allow-list of mutable fields is overwritten by the incoming value, every other field of
  the incoming record is written only where the stored record has none (so a new record is
  inserted whole and an existing one keeps its fields), and the key fields are never
  written.
\<close>

definition Manager_buildDocClientUpdateParams ::
  "js_object \<Rightarrow> (string \<times> val option) list \<Rightarrow> string list \<Rightarrow> update_params" where
  "Manager_buildDocClientUpdateParams itm itemKey mutableFieldNames =
     \<lparr> Key = itemKey,
       ExpressionAttributeValues =
         (\<lambda>f. if f \<in> set (map fst itemKey) then None else map_of itm f),
       UpdateExpression =
         (\<lambda>f. if f \<in> set (map fst itemKey) then None
              else (case map_of itm f of
                      None \<Rightarrow> None
                    | Some v \<Rightarrow>
                        Some (if f \<in> set mutableFieldNames then SetValue else SetIfNotExists))),
       ConditionExpression = None \<rparr>"

text \<open>\<open>Granule._getMutableFieldNames\<close>.\<close>

definition Granule_getMutableFieldNames :: "js_object \<Rightarrow> string list" where
  "Granule_getMutableFieldNames rcd =
     (if map_of rcd ''status'' = Some (VStr ''running'')
      then [''createdAt'', ''updatedAt'', ''timestamp'', ''status'', ''execution'']
      else map fst rcd)"

text \<open>
  \<open>Granule._storeGranuleRecord\<close>, in two parts. The first is the update request it
  builds before the \<open>try\<close>: the parameters of \<open>_buildDocClientUpdateParams\<close> with the
  condition expression on \<open>createdAt\<close>, extended by the condition on \<open>execution\<close> for a
  running record that carries one.
\<close>

definition granule_update_params :: "js_object \<Rightarrow> update_params" where
  "granule_update_params granuleRecord =
     (let mutableFieldNames = Granule_getMutableFieldNames granuleRecord;
          updateParams = Manager_buildDocClientUpdateParams granuleRecord
            [(''granuleId'', map_of granuleRecord ''granuleId'')] mutableFieldNames;
          c1 = COr (AttributeNotExists ''createdAt'') (ValueGeAttr ''createdAt'' ''createdAt'');
          c2 = (if map_of granuleRecord ''status'' = Some (VStr ''running'')
                   \<and> map_of granuleRecord ''execution'' \<noteq> None
                then CAnd c1 (AttrNeValue ''execution'' ''execution'')
                else c1)
      in updateParams\<lparr>ConditionExpression := Some c2\<rparr>)"

text \<open>
  The second part is the \<open>try\<close>: the update is sent, an error whose name includes
  \<open>ConditionalCheckFailedException\<close> is logged and turned into the result \<open>undefined\<close>
  (\<open>None\<close>), and any other error is thrown again. The document client is a parameter: it
  takes the update request and the table and gives the response or the error it throws,
  with the table after the call.
\<close>

definition is_conditional_check_failure :: "error \<Rightarrow> bool" where
  "is_conditional_check_failure e =
     (case error_name e of
        None \<Rightarrow> False
      | Some n \<Rightarrow> n \<noteq> [] \<and> sublist ''ConditionalCheckFailedException'' n)"

definition Granule_storeGranuleRecord ::
  "(update_params \<Rightarrow> table \<Rightarrow> (error + update_output) \<times> table) \<Rightarrow> js_object \<Rightarrow> table
     \<Rightarrow> (error + update_output option) \<times> table" where
  "Granule_storeGranuleRecord dynamodbDocClient granuleRecord t =
     (case dynamodbDocClient (granule_update_params granuleRecord) t of
        (Inr out, t') \<Rightarrow> (Inr (Some out), t')
      | (Inl e, t') \<Rightarrow>
          if is_conditional_check_failure e then (Inr None, t') else (Inl e, t'))"

text \<open>The upsert of the granule model on the granules table of the document store.\<close>

definition granule_upsert :: "js_object \<Rightarrow> table \<Rightarrow> (error + update_output option) \<times> table" where
  "granule_upsert = Granule_storeGranuleRecord (dynamodb_update ''granuleId'')"

text \<open>The persisted value of a field of the granule stored under an identifier.\<close>

definition persisted :: "table \<Rightarrow> string \<Rightarrow> string \<Rightarrow> val option" where
  "persisted t gid f = (case t gid of None \<Rightarrow> None | Some it \<Rightarrow> it f)"

text \<open>
  Sample data: a granule record as a workflow message reports it, with its status, its
  execution and its start time, and the granules table that holds one such record.
\<close>

definition granule_record :: "string \<Rightarrow> string \<Rightarrow> int \<Rightarrow> js_object" where
  "granule_record st ex started =
     [(''granuleId'', VStr ''g1''), (''status'', VStr st), (''execution'', VStr ex),
      (''createdAt'', VNum started), (''updatedAt'', VNum started)]"

definition granules_table :: "string \<Rightarrow> string \<Rightarrow> int \<Rightarrow> table" where
  "granules_table st ex started = [''g1'' \<mapsto> map_of (granule_record st ex started)]"

text \<open>
  Modelled from the spec: \<open>Manager.delete\<close> of \<open>models/base.js\<close>, which is not among the
  sources. It removes the record stored under the key; by section 7 of the specification
  a delete that finds no record is not an error.
\<close>

definition Manager_delete ::
  "(string \<times> val option) list \<Rightarrow> table \<Rightarrow> (error + unit) \<times> table" where
  "Manager_delete itemKey t =
     (case map_of itemKey ''granuleId'' of
        Some (Some (VStr k)) \<Rightarrow> (Inr (), t(k := None))
      | _ \<Rightarrow>
          (Inl (StoreError (Some ''ValidationException'')
                  ''The provided key element does not match the schema''), t))"

text \<open>
  \<open>Granule._deleteRecord\<close> and \<open>Granule.delete\<close>. The delete of the base class is a
  parameter, so that what \<open>delete\<close> does before it calls the store is stated for every
  store.
\<close>

definition Granule_deleteRecord ::
  "((string \<times> val option) list \<Rightarrow> table \<Rightarrow> (error + unit) \<times> table) \<Rightarrow> js_object \<Rightarrow> table
     \<Rightarrow> (error + unit) \<times> table" where
  "Granule_deleteRecord super_delete granule t =
     super_delete [(''granuleId'', map_of granule ''granuleId'')] t"

definition Granule_delete ::
  "((string \<times> val option) list \<Rightarrow> table \<Rightarrow> (error + unit) \<times> table) \<Rightarrow> js_object \<Rightarrow> table
     \<Rightarrow> (error + unit) \<times> table" where
  "Granule_delete super_delete granule t =
     (if truthy (map_of granule ''published'')
      then (Inl (DeletePublishedGranule
                   ''You cannot delete a granule that is published to CMR. Remove it from CMR first''), t)
      else Granule_deleteRecord super_delete granule t)"

section \<open>The relational store behind the base model\<close>

text \<open>
  A row maps column names to values. The handle \<open>knexOrTransaction\<close>, for the one table
  a model is bound to, holds the rows in the order the store returns them, and the error
  with which the store rejects every query while the connection is at fault.
\<close>

type_synonym pg_row = "string \<rightharpoonup> val"

record knex =
  table_rows :: "pg_row list"
  failure :: "error option"

text \<open>
  The clauses the query builder collects: \<open>where(object)\<close>, an equality on each column of
  the object, and \<open>whereBetween(column, [lo, hi])\<close> on a timestamp, inclusive at both ends
  and false on a row that has no such timestamp.
\<close>

datatype where_clause = WhereObject js_object | WhereBetween string int int

fun row_matches :: "pg_row \<Rightarrow> where_clause \<Rightarrow> bool" where
  "row_matches row (WhereObject params) = list_all (\<lambda>(c, v). row c = Some v) params"
| "row_matches row (WhereBetween c lo hi) =
     (case row c of Some (VNum x) \<Rightarrow> lo \<le> x \<and> x \<le> hi | _ \<Rightarrow> False)"

definition knex_select :: "knex \<Rightarrow> where_clause list \<Rightarrow> error + pg_row list" where
  "knex_select db clauses =
     (case failure db of
        Some e \<Rightarrow> Inl e
      | None \<Rightarrow> Inr (filter (\<lambda>row. list_all (row_matches row) clauses) (table_rows db)))"

definition knex_first :: "knex \<Rightarrow> where_clause list \<Rightarrow> error + pg_row option" where
  "knex_first db clauses =
     (case knex_select db clauses of
        Inl e \<Rightarrow> Inl e
      | Inr [] \<Rightarrow> Inr None
      | Inr (row # others) \<Rightarrow> Inr (Some row))"

definition knex_del :: "knex \<Rightarrow> where_clause list \<Rightarrow> (error + nat) \<times> knex" where
  "knex_del db clauses =
     (case failure db of
        Some e \<Rightarrow> (Inl e, db)
      | None \<Rightarrow>
          (Inr (length (filter (\<lambda>row. list_all (row_matches row) clauses) (table_rows db))),
           db\<lparr>table_rows :=
               filter (\<lambda>row. \<not> list_all (row_matches row) clauses) (table_rows db)\<rparr>))"

section \<open>The base model\<close>

text \<open>
  The range of \<open>searchWithUpdatedAtRange\<close>: each bound a \<open>Date\<close> or absent. A \<open>Date\<close> is an
  object, so it is truthy whatever its time.
\<close>

record UpdatedAtRange =
  updatedAtFrom :: "int option"
  updatedAtTo :: "int option"

text \<open>
  \<open>BasePgModel.searchWithUpdatedAtRange\<close>. \<open>new Date(0)\<close> is the time 0 and \<open>new Date()\<close>
  is the time \<open>now\<close> of the call.
\<close>

definition BasePgModel_searchWithUpdatedAtRange ::
  "int \<Rightarrow> knex \<Rightarrow> js_object \<Rightarrow> UpdatedAtRange \<Rightarrow> error + pg_row list" where
  "BasePgModel_searchWithUpdatedAtRange now knexOrTransaction params updatedAtParams =
     knex_select knexOrTransaction
       (WhereObject params #
        (if updatedAtFrom updatedAtParams \<noteq> None \<or> updatedAtTo updatedAtParams \<noteq> None
         then [WhereBetween ''updated_at''
                 (case updatedAtFrom updatedAtParams of None \<Rightarrow> 0 | Some d \<Rightarrow> d)
                 (case updatedAtTo updatedAtParams of None \<Rightarrow> now | Some d \<Rightarrow> d)]
         else []))"

text \<open>
  The search as the specification words it: the records that match the filter and whose
  \<open>updated_at\<close> lies in the range from \<open>from\<close> to \<open>to\<close>, where an omitted \<open>from\<close> is the
  epoch and an omitted \<open>to\<close> is the current time.
\<close>

definition spec_searchWithUpdatedAtRange ::
  "int \<Rightarrow> knex \<Rightarrow> js_object \<Rightarrow> UpdatedAtRange \<Rightarrow> pg_row list" where
  "spec_searchWithUpdatedAtRange now db params rng =
     filter (\<lambda>row. row_matches row (WhereObject params)
                  \<and> row_matches row (WhereBetween ''updated_at''
                        (case updatedAtFrom rng of None \<Rightarrow> 0 | Some d \<Rightarrow> d)
                        (case updatedAtTo rng of None \<Rightarrow> now | Some d \<Rightarrow> d)))
       (table_rows db)"

text \<open>
  Modelled from the spec: \<open>isRecordDefined\<close> of \<open>../database\<close>, which is not among the
  sources. By section 4.1 of the specification \<open>get\<close> fails when no row matches, so a
  record is defined unless the query gave none.
\<close>

definition isRecordDefined :: "pg_row option \<Rightarrow> bool" where
  "isRecordDefined rcd = (rcd \<noteq> None)"

text \<open>\<open>BasePgModel.get\<close>, \<open>BasePgModel.exists\<close> and \<open>BasePgModel.delete\<close>.\<close>

definition BasePgModel_get :: "string \<Rightarrow> knex \<Rightarrow> js_object \<Rightarrow> error + pg_row" where
  "BasePgModel_get tableName knexOrTransaction params =
     (case knex_first knexOrTransaction [WhereObject params] of
        Inl e \<Rightarrow> Inl e
      | Inr rcd \<Rightarrow>
          if \<not> isRecordDefined rcd then Inl (RecordDoesNotExist tableName params)
          else Inr (the rcd))"

definition BasePgModel_exists :: "string \<Rightarrow> knex \<Rightarrow> js_object \<Rightarrow> error + bool" where
  "BasePgModel_exists tableName knexOrTransaction params =
     (case BasePgModel_get tableName knexOrTransaction params of
        Inr rcd \<Rightarrow> Inr True
      | Inl (RecordDoesNotExist tbl ids) \<Rightarrow> Inr False
      | Inl e \<Rightarrow> Inl e)"

definition BasePgModel_delete :: "string \<Rightarrow> knex \<Rightarrow> js_object \<Rightarrow> (error + nat) \<times> knex" where
  "BasePgModel_delete tableName knexOrTransaction params =
     knex_del knexOrTransaction [WhereObject params]"

text \<open>Sample data: a row of a table with a name and the time of its last update.\<close>

definition named_row :: "string \<Rightarrow> int \<Rightarrow> pg_row" where
  "named_row n updated = [''name'' \<mapsto> VStr n, ''updated_at'' \<mapsto> VNum updated]"

section \<open>The query search client\<close>

text \<open>
  Modelled from the spec: the class \<open>QuerySearchClient\<close>, of which the sources hold only
  the tests. Section 4.2 of the specification gives its state: the held query, here the
  rows it selects in its sort order; the batch size \<open>limit\<close>; the buffer \<open>records\<close>; the
  absolute \<open>offset\<close>; and, since an empty batch ends the sequence for good, whether that
  has happened. \<open>fetches\<close> is the list of the store queries issued so far, each with its
  \<open>OFFSET\<close> and \<open>LIMIT\<close>, as the spies of the tests record them.
\<close>

record 'a QuerySearchClient =
  query :: "'a list"
  limit :: nat
  offset :: nat
  records :: "'a list"
  exhausted :: bool
  fetches :: "(nat \<times> nat) list"

definition new_QuerySearchClient :: "'a list \<Rightarrow> nat \<Rightarrow> 'a QuerySearchClient" where
  "new_QuerySearchClient q b =
     \<lparr> query = q, limit = b, offset = 0, records = [], exhausted = False, fetches = [] \<rparr>"

text \<open>
  Modelled from the spec: the refill. One query with \<open>LIMIT\<close> the batch size and \<open>OFFSET\<close>
  the current offset; the batch replaces the buffer; an empty batch ends the sequence.
\<close>

definition fetchRecords :: "'a QuerySearchClient \<Rightarrow> 'a QuerySearchClient" where
  "fetchRecords c =
     (let batch = take (limit c) (drop (offset c) (query c))
      in c\<lparr> records := batch, exhausted := (batch = []),
            fetches := fetches c @ [(offset c, limit c)] \<rparr>)"

text \<open>
  Modelled from the spec: the fill that \<open>peek\<close> and \<open>shift\<close> share. It fetches when the
  buffer is empty, and never again once a batch has come back empty.
\<close>

definition fill :: "'a QuerySearchClient \<Rightarrow> 'a QuerySearchClient" where
  "fill c = (if records c = [] \<and> \<not> exhausted c then fetchRecords c else c)"

text \<open>
  Modelled from the spec: \<open>peek\<close> gives the next record and leaves it in the buffer, the
  offset as it was; \<open>shift\<close> removes the record it gives and advances the offset by the
  one record removed, so that a batch drained in full has advanced it by the size of the
  batch. \<open>None\<close> is the answer "none".
\<close>

definition peek :: "'a QuerySearchClient \<Rightarrow> 'a option \<times> 'a QuerySearchClient" where
  "peek c =
     (let c' = fill c
      in (case records c' of [] \<Rightarrow> None | x # xs \<Rightarrow> Some x, c'))"

definition shift :: "'a QuerySearchClient \<Rightarrow> 'a option \<times> 'a QuerySearchClient" where
  "shift c =
     (let c' = fill c
      in case records c' of
           [] \<Rightarrow> (None, c')
         | x # xs \<Rightarrow> (Some x, c'\<lparr> records := xs, offset := offset c' + 1 \<rparr>))"

text \<open>A caller's calls, in order, with the answer to each.\<close>

datatype call = Peek | Shift

fun step :: "call \<Rightarrow> 'a QuerySearchClient \<Rightarrow> 'a option \<times> 'a QuerySearchClient" where
  "step Peek c = peek c"
| "step Shift c = shift c"

fun run :: "call list \<Rightarrow> 'a QuerySearchClient \<Rightarrow> (call \<times> 'a option) list \<times> 'a QuerySearchClient" where
  "run [] c = ([], c)"
| "run (k # ks) c =
     (case step k c of
        (r, c') \<Rightarrow> (case run ks c' of (tr, c'') \<Rightarrow> ((k, r) # tr, c'')))"

text \<open>The answers to the \<open>shift\<close> calls of a run.\<close>

definition shifted :: "(call \<times> 'a option) list \<Rightarrow> 'a option list" where
  "shifted tr = map snd (filter (\<lambda>(k, r). k = Shift) tr)"

text \<open>
  A client is in step with the rows \<open>xs\<close> of its query when its buffer holds rows of \<open>xs\<close>
  from its offset on, and it counts as exhausted only at the end of \<open>xs\<close> with an empty
  buffer.
\<close>

definition in_step :: "'a list \<Rightarrow> nat \<Rightarrow> 'a QuerySearchClient \<Rightarrow> bool" where
  "in_step xs b c \<longleftrightarrow>
     query c = xs \<and> limit c = b \<and> offset c \<le> length xs
     \<and> prefix (records c) (drop (offset c) xs)
     \<and> (exhausted c \<longrightarrow> records c = [] \<and> offset c = length xs)"

section \<open>Properties of the granule upsert\<close>

lemma ccf_is:
  "is_conditional_check_failure (StoreError (Some ''ConditionalCheckFailedException'') m)"
  by (simp add: is_conditional_check_failure_def)

lemma validation_not_ccf:
  "\<not> is_conditional_check_failure (StoreError (Some ''ValidationException'') m)"
  unfolding is_conditional_check_failure_def by code_simp

lemma dynamodb_update_cond:
  assumes "map_of (Key p) h = Some (Some (VStr k))"
    and "ConditionExpression p = Some c"
    and "list_all (\<lambda>v. ExpressionAttributeValues p v \<noteq> None) (cond_values c)"
  shows "dynamodb_update h p t =
    (if eval_cond (ExpressionAttributeValues p) (case t k of None \<Rightarrow> Map.empty | Some it \<Rightarrow> it) c
     then (Inr UpdateItemOutput,
           t(k \<mapsto> (apply_set p (case t k of None \<Rightarrow> Map.empty | Some it \<Rightarrow> it))(h \<mapsto> VStr k)))
     else (Inl (StoreError (Some ''ConditionalCheckFailedException'')
                  ''The conditional request failed''), t))"
  using assms by (simp add: dynamodb_update_def Let_def)

lemma dynamodb_update_no_key:
  assumes "\<forall>k. map_of (Key p) h \<noteq> Some (Some (VStr k))"
  shows "dynamodb_update h p t =
    (Inl (StoreError (Some ''ValidationException'')
                  ''The provided key element does not match the schema''), t)"
  using assms by (auto simp: dynamodb_update_def split: option.splits val.splits)

lemma dynamodb_update_no_value:
  assumes "map_of (Key p) h = Some (Some (VStr k))"
    and "ConditionExpression p = Some c"
    and "\<not> list_all (\<lambda>v. ExpressionAttributeValues p v \<noteq> None) (cond_values c)"
  shows "dynamodb_update h p t =
    (Inl (StoreError (Some ''ValidationException'')
            ''An expression attribute value used in expression is not defined''), t)"
  using assms by (simp add: dynamodb_update_def Let_def)

lemma granule_params_values:
  "ExpressionAttributeValues (granule_update_params r) f =
     (if f = ''granuleId'' then None else map_of r f)"
  by (simp add: granule_update_params_def Let_def Manager_buildDocClientUpdateParams_def)

lemma granule_params_key:
  "Key (granule_update_params r) = [(''granuleId'', map_of r ''granuleId'')]"
  by (simp add: granule_update_params_def Let_def Manager_buildDocClientUpdateParams_def)

lemma granule_params_set:
  "UpdateExpression (granule_update_params r) f =
     (if f = ''granuleId'' then None
      else (case map_of r f of
              None \<Rightarrow> None
            | Some v \<Rightarrow> Some (if f \<in> set (Granule_getMutableFieldNames r)
                               then SetValue else SetIfNotExists)))"
  by (simp add: granule_update_params_def Let_def Manager_buildDocClientUpdateParams_def)

lemma granule_params_cond:
  "ConditionExpression (granule_update_params r) =
     Some (if map_of r ''status'' = Some (VStr ''running'') \<and> map_of r ''execution'' \<noteq> None
           then CAnd (COr (AttributeNotExists ''createdAt'') (ValueGeAttr ''createdAt'' ''createdAt''))
                     (AttrNeValue ''execution'' ''execution'')
           else COr (AttributeNotExists ''createdAt'') (ValueGeAttr ''createdAt'' ''createdAt''))"
  by (simp add: granule_update_params_def Let_def Manager_buildDocClientUpdateParams_def)

lemma granule_cond_eval:
  assumes "map_of r ''createdAt'' = Some cv"
  shows "eval_cond (ExpressionAttributeValues (granule_update_params r)) old
           (the (ConditionExpression (granule_update_params r))) \<longleftrightarrow>
        (old ''createdAt'' = None \<or> (\<exists>b. old ''createdAt'' = Some b \<and> val_ge cv b))
        \<and> (map_of r ''status'' = Some (VStr ''running'') \<longrightarrow>
             (\<forall>e. map_of r ''execution'' = Some e \<longrightarrow> old ''execution'' \<noteq> Some e))"
  using assms by (auto simp: granule_params_values granule_params_cond split: option.splits)

lemma granule_cond_values:
  "list_all (\<lambda>v. ExpressionAttributeValues (granule_update_params r) v \<noteq> None)
     (cond_values (the (ConditionExpression (granule_update_params r))))
   \<longleftrightarrow> map_of r ''createdAt'' \<noteq> None"
  by (auto simp: granule_params_values granule_params_cond)

lemma granule_item_field:
  "apply_set (granule_update_params r) old f =
     (if f = ''granuleId'' then old f
      else (case map_of r f of
              None \<Rightarrow> old f
            | Some v \<Rightarrow>
                if f \<in> set (Granule_getMutableFieldNames r) then Some v
                else (case old f of None \<Rightarrow> Some v | Some w \<Rightarrow> Some w)))"
  by (simp add: apply_set_def granule_params_set granule_params_values split: option.splits)

lemma dynamodb_update_granule:
  assumes g: "map_of r ''granuleId'' = Some (VStr g)"
    and c: "map_of r ''createdAt'' = Some cv"
  shows "dynamodb_update ''granuleId'' (granule_update_params r) t =
    (let old = (case t g of None \<Rightarrow> Map.empty | Some it \<Rightarrow> it) in
     if (old ''createdAt'' = None \<or> (\<exists>b. old ''createdAt'' = Some b \<and> val_ge cv b))
        \<and> (map_of r ''status'' = Some (VStr ''running'') \<longrightarrow>
             (\<forall>e. map_of r ''execution'' = Some e \<longrightarrow> old ''execution'' \<noteq> Some e))
     then (Inr UpdateItemOutput,
           t(g \<mapsto> (apply_set (granule_update_params r) old)(''granuleId'' \<mapsto> VStr g)))
     else (Inl (StoreError (Some ''ConditionalCheckFailedException'')
                  ''The conditional request failed''), t))"
proof -
  let ?old = "case t g of None \<Rightarrow> Map.empty | Some it \<Rightarrow> it"
  let ?p = "granule_update_params r"
  obtain c2 where c2: "ConditionExpression ?p = Some c2"
    by (simp add: granule_params_cond)
  have k: "map_of (Key ?p) ''granuleId'' = Some (Some (VStr g))"
    using g by (simp add: granule_params_key)
  have v: "list_all (\<lambda>v. ExpressionAttributeValues ?p v \<noteq> None) (cond_values c2)"
    using granule_cond_values [of r] c c2 by simp
  show ?thesis
    unfolding dynamodb_update_cond [OF k c2 v]
    using granule_cond_eval [OF c, of ?old] c2 by (simp add: Let_def)
qed

lemma granule_upsert_eq:
  assumes g: "map_of r ''granuleId'' = Some (VStr g)"
    and c: "map_of r ''createdAt'' = Some cv"
  shows "granule_upsert r t =
    (let old = (case t g of None \<Rightarrow> Map.empty | Some it \<Rightarrow> it) in
     if (old ''createdAt'' = None \<or> (\<exists>b. old ''createdAt'' = Some b \<and> val_ge cv b))
        \<and> (map_of r ''status'' = Some (VStr ''running'') \<longrightarrow>
             (\<forall>e. map_of r ''execution'' = Some e \<longrightarrow> old ''execution'' \<noteq> Some e))
     then (Inr (Some UpdateItemOutput),
           t(g \<mapsto> (apply_set (granule_update_params r) old)(''granuleId'' \<mapsto> VStr g)))
     else (Inr None, t))"
  unfolding granule_upsert_def Granule_storeGranuleRecord_def dynamodb_update_granule [OF g c]
  by (simp add: Let_def ccf_is)

lemma granule_upsert_invalid:
  assumes "(\<forall>g. map_of r ''granuleId'' \<noteq> Some (VStr g)) \<or> map_of r ''createdAt'' = None"
  shows "\<exists>m. granule_upsert r t = (Inl (StoreError (Some ''ValidationException'') m), t)"
proof (cases "\<exists>g. map_of r ''granuleId'' = Some (VStr g)")
  case False
  then have "\<forall>k. map_of (Key (granule_update_params r)) ''granuleId'' \<noteq> Some (Some (VStr k))"
    by (simp add: granule_params_key)
  from dynamodb_update_no_key [OF this] show ?thesis
    by (simp add: granule_upsert_def Granule_storeGranuleRecord_def validation_not_ccf)
next
  case True
  then obtain g where g: "map_of r ''granuleId'' = Some (VStr g)" by blast
  with assms have c: "map_of r ''createdAt'' = None" by simp
  let ?p = "granule_update_params r"
  obtain c2 where c2: "ConditionExpression ?p = Some c2"
    by (simp add: granule_params_cond)
  have k: "map_of (Key ?p) ''granuleId'' = Some (Some (VStr g))"
    using g by (simp add: granule_params_key)
  have v: "\<not> list_all (\<lambda>v. ExpressionAttributeValues ?p v \<noteq> None) (cond_values c2)"
    using granule_cond_values [of r] c c2 by simp
  from dynamodb_update_no_value [OF k c2 v] show ?thesis
    by (simp add: granule_upsert_def Granule_storeGranuleRecord_def validation_not_ccf)
qed

lemma granule_upsert_applied:
  assumes "fst (granule_upsert r t) = Inr (Some out)"
  obtains g cv where "map_of r ''granuleId'' = Some (VStr g)"
    and "map_of r ''createdAt'' = Some cv"
    and "(case t g of None \<Rightarrow> Map.empty | Some it \<Rightarrow> it) ''createdAt'' = None
         \<or> (\<exists>b. (case t g of None \<Rightarrow> Map.empty | Some it \<Rightarrow> it) ''createdAt'' = Some b \<and> val_ge cv b)"
    and "snd (granule_upsert r t) =
           t(g \<mapsto> (apply_set (granule_update_params r)
                     (case t g of None \<Rightarrow> Map.empty | Some it \<Rightarrow> it))(''granuleId'' \<mapsto> VStr g))"
proof -
  have "\<not> ((\<forall>g. map_of r ''granuleId'' \<noteq> Some (VStr g)) \<or> map_of r ''createdAt'' = None)"
  proof
    assume "(\<forall>g. map_of r ''granuleId'' \<noteq> Some (VStr g)) \<or> map_of r ''createdAt'' = None"
    from granule_upsert_invalid [OF this, of t] assms show False by auto
  qed
  then obtain g cv where g: "map_of r ''granuleId'' = Some (VStr g)"
    and c: "map_of r ''createdAt'' = Some cv" by auto
  show thesis
    using assms that [OF g c] unfolding granule_upsert_eq [OF g c] Let_def
    by (auto split: if_splits)
qed

lemma granule_record_fields:
  "map_of (granule_record st ex started) ''granuleId'' = Some (VStr ''g1'')"
  "map_of (granule_record st ex started) ''status'' = Some (VStr st)"
  "map_of (granule_record st ex started) ''execution'' = Some (VStr ex)"
  "map_of (granule_record st ex started) ''createdAt'' = Some (VNum started)"
  by (simp_all add: granule_record_def)

lemma granules_table_g1:
  "granules_table st ex started ''g1'' = Some (map_of (granule_record st ex started))"
  by (simp add: granules_table_def)

lemma granule_upsert_sample:
  "granule_upsert (granule_record st ex a) (granules_table st' ex' b) =
     (if b \<le> a \<and> (st = ''running'' \<longrightarrow> ex \<noteq> ex')
      then (Inr (Some UpdateItemOutput),
            (granules_table st' ex' b)(''g1'' \<mapsto>
               (apply_set (granule_update_params (granule_record st ex a))
                  (map_of (granule_record st' ex' b)))(''granuleId'' \<mapsto> VStr ''g1'')))
      else (Inr None, granules_table st' ex' b))"
  unfolding granule_upsert_eq [OF granule_record_fields(1) granule_record_fields(4)]
  by (auto simp: granules_table_g1 granule_record_fields Let_def)

lemma persisted_sample:
  "persisted (granules_table st ex b) ''g1'' ''status'' = Some (VStr st)"
  by (simp add: persisted_def granules_table_g1 granule_record_fields)

lemma persisted_sample_applied:
  "persisted ((granules_table st' ex' b)(''g1'' \<mapsto>
               (apply_set (granule_update_params (granule_record st ex a))
                  (map_of (granule_record st' ex' b)))(''granuleId'' \<mapsto> VStr ''g1''))) ''g1'' ''status''
   = Some (VStr st)"
  by (simp add: persisted_def granule_item_field granule_record_fields
      Granule_getMutableFieldNames_def) (simp add: granule_record_def)

text \<open>
  C10. The fields an upsert may overwrite: for an incoming record whose status is
  \<open>running\<close> they are exactly \<open>createdAt\<close>, \<open>updatedAt\<close>, \<open>timestamp\<close>, \<open>status\<close> and
  \<open>execution\<close>; for a record with any other status they are all the fields of the record.
  The status is among the former, so a running upsert that the store applies leaves the
  persisted status \<open>running\<close>; and an applied upsert with another status persists every
  field of the incoming record.
\<close>

theorem running_allow_list:
  "set (Granule_getMutableFieldNames r) =
     (if map_of r ''status'' = Some (VStr ''running'')
      then {''createdAt'', ''updatedAt'', ''timestamp'', ''status'', ''execution''}
      else fst ` set r)
   \<and> (map_of r ''status'' = Some (VStr ''running'') \<longrightarrow>
        map_of r ''granuleId'' = Some (VStr g) \<longrightarrow>
        fst (granule_upsert r t) = Inr (Some out) \<longrightarrow>
        persisted (snd (granule_upsert r t)) g ''status'' = Some (VStr ''running''))
   \<and> (map_of r ''status'' \<noteq> Some (VStr ''running'') \<longrightarrow>
        map_of r ''granuleId'' = Some (VStr g) \<longrightarrow>
        fst (granule_upsert r t) = Inr (Some out) \<longrightarrow>
        (\<forall>f v. map_of r f = Some v \<longrightarrow> persisted (snd (granule_upsert r t)) g f = Some v))"
proof (intro conjI impI allI)
  show "set (Granule_getMutableFieldNames r) =
     (if map_of r ''status'' = Some (VStr ''running'')
      then {''createdAt'', ''updatedAt'', ''timestamp'', ''status'', ''execution''}
      else fst ` set r)"
    by (simp add: Granule_getMutableFieldNames_def)
next
  assume s: "map_of r ''status'' = Some (VStr ''running'')"
    and g: "map_of r ''granuleId'' = Some (VStr g)"
    and ok: "fst (granule_upsert r t) = Inr (Some out)"
  from ok obtain g' where "map_of r ''granuleId'' = Some (VStr g')"
    and t': "snd (granule_upsert r t) =
           t(g' \<mapsto> (apply_set (granule_update_params r)
                     (case t g' of None \<Rightarrow> Map.empty | Some it \<Rightarrow> it))(''granuleId'' \<mapsto> VStr g'))"
    by (rule granule_upsert_applied)
  with g have "g' = g" by simp
  with t' s show "persisted (snd (granule_upsert r t)) g ''status'' = Some (VStr ''running'')"
    by (simp add: persisted_def granule_item_field Granule_getMutableFieldNames_def)
next
  fix f v
  assume s: "map_of r ''status'' \<noteq> Some (VStr ''running'')"
    and g: "map_of r ''granuleId'' = Some (VStr g)"
    and ok: "fst (granule_upsert r t) = Inr (Some out)"
    and f: "map_of r f = Some v"
  from ok obtain g' where "map_of r ''granuleId'' = Some (VStr g')"
    and t': "snd (granule_upsert r t) =
           t(g' \<mapsto> (apply_set (granule_update_params r)
                     (case t g' of None \<Rightarrow> Map.empty | Some it \<Rightarrow> it))(''granuleId'' \<mapsto> VStr g'))"
    by (rule granule_upsert_applied)
  with g have g': "g' = g" by simp
  have "f \<in> fst ` set r" using f by (metis map_of_SomeD fst_conv image_eqI)
  with t' s g' f g show "persisted (snd (granule_upsert r t)) g f = Some v"
    by (auto simp: persisted_def granule_item_field Granule_getMutableFieldNames_def)
qed

theorem running_allow_list_witness:
  "fst (granule_upsert (granule_record ''running'' ''e2'' 20) (granules_table ''completed'' ''e1'' 10))
     = Inr (Some UpdateItemOutput)
   \<and> persisted (snd (granule_upsert (granule_record ''running'' ''e2'' 20)
                       (granules_table ''completed'' ''e1'' 10))) ''g1'' ''status''
       = Some (VStr ''running'')
   \<and> fst (granule_upsert (granule_record ''failed'' ''e2'' 20) (granules_table ''completed'' ''e1'' 10))
     = Inr (Some UpdateItemOutput)
   \<and> persisted (snd (granule_upsert (granule_record ''failed'' ''e2'' 20)
                       (granules_table ''completed'' ''e1'' 10))) ''g1'' ''execution''
       = Some (VStr ''e2'')"
proof -
  have ok: "fst (granule_upsert (granule_record ''running'' ''e2'' 20)
                  (granules_table ''completed'' ''e1'' 10)) = Inr (Some UpdateItemOutput)"
       "fst (granule_upsert (granule_record ''failed'' ''e2'' 20)
                  (granules_table ''completed'' ''e1'' 10)) = Inr (Some UpdateItemOutput)"
    by (simp_all add: granule_upsert_sample)
  from running_allow_list
         [of "granule_record ''running'' ''e2'' 20" "''g1''" "granules_table ''completed'' ''e1'' 10"
             UpdateItemOutput]
       running_allow_list
         [of "granule_record ''failed'' ''e2'' 20" "''g1''" "granules_table ''completed'' ''e1'' 10"
             UpdateItemOutput]
       ok
  show ?thesis
    by (simp add: granule_record_fields)
qed

text \<open>
  C3. A write the store rejects with a conditional-check failure is a silent no-op: the
  upsert gives the result \<open>undefined\<close> and raises nothing, whatever the document client
  is; every other error of the write reaches the caller as it was thrown. The rejection
  of the store modelled here is such a failure, and leaves the table as it was.
\<close>

theorem conditional_check_failure_is_noop:
  "(dynamodbDocClient (granule_update_params r) t = (Inl e, t') \<longrightarrow>
      is_conditional_check_failure e \<longrightarrow>
      Granule_storeGranuleRecord dynamodbDocClient r t = (Inr None, t'))
   \<and> (dynamodbDocClient (granule_update_params r) t = (Inl e, t') \<longrightarrow>
      \<not> is_conditional_check_failure e \<longrightarrow>
      Granule_storeGranuleRecord dynamodbDocClient r t = (Inl e, t'))
   \<and> (fst (dynamodb_update ''granuleId'' (granule_update_params r) t)
         = Inl (StoreError (Some ''ConditionalCheckFailedException'') m) \<longrightarrow>
      granule_upsert r t = (Inr None, t))"
proof (intro conjI impI)
  assume "fst (dynamodb_update ''granuleId'' (granule_update_params r) t)
         = Inl (StoreError (Some ''ConditionalCheckFailedException'') m)"
  moreover have "snd (dynamodb_update ''granuleId'' (granule_update_params r) t) = t
     \<or> (\<exists>out. fst (dynamodb_update ''granuleId'' (granule_update_params r) t) = Inr out)"
    by (auto simp: dynamodb_update_def Let_def split: option.splits val.splits)
  ultimately have "dynamodb_update ''granuleId'' (granule_update_params r) t =
      (Inl (StoreError (Some ''ConditionalCheckFailedException'') m), t)"
    by (metis Inl_Inr_False prod.collapse)
  then show "granule_upsert r t = (Inr None, t)"
    by (simp add: granule_upsert_def Granule_storeGranuleRecord_def ccf_is)
qed (simp_all add: Granule_storeGranuleRecord_def)

theorem conditional_check_failure_is_noop_witness:
  "Granule_storeGranuleRecord (dynamodb_update ''granuleId'')
      (granule_record ''running'' ''e1'' 20) (granules_table ''running'' ''e1'' 10)
     = (Inr None, granules_table ''running'' ''e1'' 10)
   \<and> Granule_storeGranuleRecord (\<lambda>p t. (Inl (StoreError (Some ''NetworkingError'') ''timeout''), t))
      (granule_record ''running'' ''e1'' 20) (granules_table ''running'' ''e1'' 10)
     = (Inl (StoreError (Some ''NetworkingError'') ''timeout''), granules_table ''running'' ''e1'' 10)
   \<and> granule_upsert (granule_record ''running'' ''e1'' 20) (granules_table ''running'' ''e1'' 10)
     = (Inr None, granules_table ''running'' ''e1'' 10)"
proof -
  let ?r = "granule_record ''running'' ''e1'' 20"
  let ?t = "granules_table ''running'' ''e1'' 10"
  let ?e = "StoreError (Some ''ConditionalCheckFailedException'') ''The conditional request failed''"
  let ?n = "StoreError (Some ''NetworkingError'') ''timeout''"
  have rej: "dynamodb_update ''granuleId'' (granule_update_params ?r) ?t = (Inl ?e, ?t)"
    unfolding dynamodb_update_granule [OF granule_record_fields(1) granule_record_fields(4)]
    by (simp add: granules_table_g1 granule_record_fields Let_def)
  have n: "\<not> is_conditional_check_failure ?n"
    unfolding is_conditional_check_failure_def by code_simp
  from conditional_check_failure_is_noop
         [of "dynamodb_update ''granuleId''" ?r ?t ?e ?t "''The conditional request failed''"]
       conditional_check_failure_is_noop [of "\<lambda>p t. (Inl ?n, t)" ?r ?t ?n ?t]
       rej n ccf_is
  show ?thesis by simp
qed

text \<open>
  C4. The guard on \<open>createdAt\<close>: for an existing record, the write is applied only if
  the record has no \<open>createdAt\<close> or the incoming \<open>createdAt\<close> is greater than or equal to
  the stored one; an incoming record whose \<open>createdAt\<close> is strictly older than the stored
  one is rejected and the table is left as it was, whatever the two statuses are.
\<close>

theorem created_at_guard:
  "(map_of r ''granuleId'' = Some (VStr g) \<longrightarrow> t g = Some old \<longrightarrow>
      fst (granule_upsert r t) = Inr (Some out) \<longrightarrow>
      old ''createdAt'' = None
      \<or> (\<exists>a b. map_of r ''createdAt'' = Some a \<and> old ''createdAt'' = Some b \<and> val_ge a b))
   \<and> (map_of r ''granuleId'' = Some (VStr g) \<longrightarrow> t g = Some old \<longrightarrow>
      map_of r ''createdAt'' = Some (VNum a) \<longrightarrow> old ''createdAt'' = Some (VNum b) \<longrightarrow>
      a < b \<longrightarrow> granule_upsert r t = (Inr None, t))
   \<and> (map_of r ''granuleId'' = Some (VStr g) \<longrightarrow> t g = Some old \<longrightarrow>
      map_of r ''createdAt'' = Some (VNum a) \<longrightarrow> old ''createdAt'' = Some (VNum b) \<longrightarrow>
      fst (granule_upsert r t) = Inr (Some out) \<longrightarrow> b \<le> a)"
proof (intro conjI impI)
  assume g: "map_of r ''granuleId'' = Some (VStr g)" and o: "t g = Some old"
    and ok: "fst (granule_upsert r t) = Inr (Some out)"
  from ok obtain g' cv where g': "map_of r ''granuleId'' = Some (VStr g')"
    and c: "map_of r ''createdAt'' = Some cv"
    and "(case t g' of None \<Rightarrow> Map.empty | Some it \<Rightarrow> it) ''createdAt'' = None
         \<or> (\<exists>b. (case t g' of None \<Rightarrow> Map.empty | Some it \<Rightarrow> it) ''createdAt'' = Some b \<and> val_ge cv b)"
    by (rule granule_upsert_applied)
  with g o show "old ''createdAt'' = None
      \<or> (\<exists>a b. map_of r ''createdAt'' = Some a \<and> old ''createdAt'' = Some b \<and> val_ge a b)"
    by auto
next
  assume g: "map_of r ''granuleId'' = Some (VStr g)" and o: "t g = Some old"
    and c: "map_of r ''createdAt'' = Some (VNum a)" and oc: "old ''createdAt'' = Some (VNum b)"
    and lt: "a < b"
  show "granule_upsert r t = (Inr None, t)"
    unfolding granule_upsert_eq [OF g c] using o oc lt by simp
next
  assume g: "map_of r ''granuleId'' = Some (VStr g)" and o: "t g = Some old"
    and c: "map_of r ''createdAt'' = Some (VNum a)" and oc: "old ''createdAt'' = Some (VNum b)"
    and ok: "fst (granule_upsert r t) = Inr (Some out)"
  show "b \<le> a"
    using ok unfolding granule_upsert_eq [OF g c] using o oc by (simp split: if_splits)
qed

theorem created_at_guard_witness:
  "fst (granule_upsert (granule_record ''completed'' ''e1'' 20) (granules_table ''running'' ''e1'' 10))
     = Inr (Some UpdateItemOutput)
   \<and> (10::int) \<le> 20
   \<and> val_ge (VNum 20) (VNum 10)
   \<and> granule_upsert (granule_record ''completed'' ''e2'' 5) (granules_table ''running'' ''e1'' 10)
     = (Inr None, granules_table ''running'' ''e1'' 10)"
proof -
  have ok: "fst (granule_upsert (granule_record ''completed'' ''e1'' 20)
                  (granules_table ''running'' ''e1'' 10)) = Inr (Some UpdateItemOutput)"
    by (simp add: granule_upsert_sample)
  from created_at_guard
         [of "granule_record ''completed'' ''e1'' 20" "''g1''" "granules_table ''running'' ''e1'' 10"
             "map_of (granule_record ''running'' ''e1'' 10)" UpdateItemOutput 20 10]
       created_at_guard
         [of "granule_record ''completed'' ''e2'' 5" "''g1''" "granules_table ''running'' ''e1'' 10"
             "map_of (granule_record ''running'' ''e1'' 10)" UpdateItemOutput 5 10]
       ok
  show ?thesis
    by (simp add: granule_record_fields granules_table_g1)
qed

text \<open>
  C9. A duplicate delivery is a no-op: when the persisted granule is \<open>running\<close> with an
  execution, an upsert that carries the status \<open>running\<close> and the same execution is
  rejected by the conditional write; the table is left as it was and the caller gets the
  result \<open>undefined\<close>, not an error. (A granule record carries its \<open>createdAt\<close>: the
  condition expression names it.)
\<close>

theorem duplicate_running_is_noop:
  assumes "map_of r ''granuleId'' = Some (VStr g)"
    and "map_of r ''createdAt'' = Some cv"
    and "map_of r ''status'' = Some (VStr ''running'')"
    and "map_of r ''execution'' = Some e"
    and "t g = Some old"
    and "old ''status'' = Some (VStr ''running'')"
    and "old ''execution'' = Some e"
  shows "granule_upsert r t = (Inr None, t)"
  unfolding granule_upsert_eq [OF assms(1,2)] using assms by simp

theorem duplicate_running_is_noop_witness:
  "granule_upsert (granule_record ''running'' ''e1'' 20) (granules_table ''running'' ''e1'' 10)
     = (Inr None, granules_table ''running'' ''e1'' 10)"
  by (rule duplicate_running_is_noop [where g = "''g1''" and e = "VStr ''e1''" and cv = "VNum 20"
        and old = "map_of (granule_record ''running'' ''e1'' 10)"])
     (simp_all add: granule_record_fields granules_table_g1)

text \<open>
  C1, as amended. The claim as stated fails: a running upsert with a new execution and a
  \<open>createdAt\<close> that is not older replaces a completed status, and a completed upsert with
  an older \<open>createdAt\<close> does not replace a running one.
\<close>

theorem status_monotonicity_counterexample:
  "persisted (granules_table ''completed'' ''e1'' 10) ''g1'' ''status'' = Some (VStr ''completed'')
   \<and> persisted (snd (granule_upsert (granule_record ''running'' ''e2'' 20)
                       (granules_table ''completed'' ''e1'' 10))) ''g1'' ''status''
       = Some (VStr ''running'')
   \<and> persisted (granules_table ''running'' ''e1'' 10) ''g1'' ''status'' = Some (VStr ''running'')
   \<and> persisted (snd (granule_upsert (granule_record ''completed'' ''e1'' 5)
                       (granules_table ''running'' ''e1'' 10))) ''g1'' ''status''
       = Some (VStr ''running'')"
  by (simp add: granule_upsert_sample persisted_sample persisted_sample_applied)

text \<open>
  C1. What holds: a persisted status \<open>completed\<close> survives a running upsert whenever the
  upsert's \<open>createdAt\<close> is older than the stored one or it carries the execution already
  stored (the conditional write is then rejected); and a persisted status \<open>running\<close>
  becomes \<open>completed\<close> by a completed upsert whenever the stored record has no \<open>createdAt\<close>
  or one that is not newer than the incoming one.
\<close>

theorem status_monotonicity_guarded:
  "(map_of r ''granuleId'' = Some (VStr g) \<longrightarrow> t g = Some old \<longrightarrow>
      old ''status'' = Some (VStr ''completed'') \<longrightarrow>
      map_of r ''status'' = Some (VStr ''running'') \<longrightarrow>
      map_of r ''createdAt'' = Some (VNum a) \<longrightarrow>
      (\<exists>b. old ''createdAt'' = Some (VNum b) \<and> a < b)
        \<or> (\<exists>e. map_of r ''execution'' = Some e \<and> old ''execution'' = Some e) \<longrightarrow>
      fst (granule_upsert r t) = Inr None
      \<and> persisted (snd (granule_upsert r t)) g ''status'' = Some (VStr ''completed''))
   \<and> (map_of r ''granuleId'' = Some (VStr g) \<longrightarrow> t g = Some old \<longrightarrow>
      old ''status'' = Some (VStr ''running'') \<longrightarrow>
      map_of r ''status'' = Some (VStr ''completed'') \<longrightarrow>
      map_of r ''createdAt'' = Some (VNum a) \<longrightarrow>
      old ''createdAt'' = None \<or> (\<exists>b. old ''createdAt'' = Some (VNum b) \<and> b \<le> a) \<longrightarrow>
      fst (granule_upsert r t) = Inr (Some UpdateItemOutput)
      \<and> persisted (snd (granule_upsert r t)) g ''status'' = Some (VStr ''completed''))"
proof (intro conjI impI)
  assume g: "map_of r ''granuleId'' = Some (VStr g)" and o: "t g = Some old"
    and os: "old ''status'' = Some (VStr ''completed'')"
    and s: "map_of r ''status'' = Some (VStr ''running'')"
    and c: "map_of r ''createdAt'' = Some (VNum a)"
    and rej: "(\<exists>b. old ''createdAt'' = Some (VNum b) \<and> a < b)
        \<or> (\<exists>e. map_of r ''execution'' = Some e \<and> old ''execution'' = Some e)"
  have eq: "granule_upsert r t = (Inr None, t)"
    unfolding granule_upsert_eq [OF g c] using o s rej by auto
  show "fst (granule_upsert r t) = Inr None" by (simp add: eq)
  show "persisted (snd (granule_upsert r t)) g ''status'' = Some (VStr ''completed'')"
    using o os by (simp add: eq persisted_def)
next
  assume g: "map_of r ''granuleId'' = Some (VStr g)" and o: "t g = Some old"
    and s: "map_of r ''status'' = Some (VStr ''completed'')"
    and c: "map_of r ''createdAt'' = Some (VNum a)"
    and acc: "old ''createdAt'' = None \<or> (\<exists>b. old ''createdAt'' = Some (VNum b) \<and> b \<le> a)"
  have eq: "granule_upsert r t = (Inr (Some UpdateItemOutput),
           t(g \<mapsto> (apply_set (granule_update_params r) old)(''granuleId'' \<mapsto> VStr g)))"
    unfolding granule_upsert_eq [OF g c] using o s acc by auto
  show "fst (granule_upsert r t) = Inr (Some UpdateItemOutput)" by (simp add: eq)
  have "''status'' \<in> fst ` set r" using s by (metis map_of_SomeD fst_conv image_eqI)
  then show "persisted (snd (granule_upsert r t)) g ''status'' = Some (VStr ''completed'')"
    using s by (simp add: eq persisted_def granule_item_field Granule_getMutableFieldNames_def)
qed

theorem status_monotonicity_guarded_witness:
  "fst (granule_upsert (granule_record ''running'' ''e1'' 20) (granules_table ''completed'' ''e1'' 10))
     = Inr None
   \<and> persisted (snd (granule_upsert (granule_record ''running'' ''e1'' 20)
                       (granules_table ''completed'' ''e1'' 10))) ''g1'' ''status''
       = Some (VStr ''completed'')
   \<and> fst (granule_upsert (granule_record ''completed'' ''e1'' 20) (granules_table ''running'' ''e1'' 10))
     = Inr (Some UpdateItemOutput)
   \<and> persisted (snd (granule_upsert (granule_record ''completed'' ''e1'' 20)
                       (granules_table ''running'' ''e1'' 10))) ''g1'' ''status''
       = Some (VStr ''completed'')"
proof -
  have 1: "(\<exists>b. map_of (granule_record ''completed'' ''e1'' 10) ''createdAt'' = Some (VNum b) \<and> 20 < b)
        \<or> (\<exists>e. map_of (granule_record ''running'' ''e1'' 20) ''execution'' = Some e
              \<and> map_of (granule_record ''completed'' ''e1'' 10) ''execution'' = Some e)"
    by (simp add: granule_record_fields)
  have 2: "map_of (granule_record ''running'' ''e1'' 10) ''createdAt'' = None
        \<or> (\<exists>b. map_of (granule_record ''running'' ''e1'' 10) ''createdAt'' = Some (VNum b) \<and> b \<le> 20)"
    by (simp add: granule_record_fields)
  from status_monotonicity_guarded
         [of "granule_record ''running'' ''e1'' 20" "''g1''" "granules_table ''completed'' ''e1'' 10"
             "map_of (granule_record ''completed'' ''e1'' 10)" 20]
       status_monotonicity_guarded
         [of "granule_record ''completed'' ''e1'' 20" "''g1''" "granules_table ''running'' ''e1'' 10"
             "map_of (granule_record ''running'' ''e1'' 10)" 20]
       1 2
  show ?thesis
    by (simp add: granule_record_fields granules_table_g1)
qed

section \<open>Properties of the granule delete\<close>

text \<open>
  C6. The guard on published granules: the delete of a granule whose \<open>published\<close> is
  true fails with \<open>DeletePublishedGranule\<close> whatever the delete of the store would do, so
  before any change of the store is tried, and leaves the table as it was; the delete of
  a granule whose \<open>published\<close> is false is the delete of the store on the granule's key,
  which removes the record.
\<close>

theorem published_delete_guard:
  "(map_of granule ''published'' = Some (VBool True) \<longrightarrow>
      Granule_delete super_delete granule t =
        (Inl (DeletePublishedGranule
           ''You cannot delete a granule that is published to CMR. Remove it from CMR first''), t))
   \<and> (map_of granule ''published'' = Some (VBool False) \<longrightarrow>
      Granule_delete super_delete granule t =
        super_delete [(''granuleId'', map_of granule ''granuleId'')] t)
   \<and> (map_of granule ''published'' = Some (VBool False) \<longrightarrow>
      map_of granule ''granuleId'' = Some (VStr g) \<longrightarrow>
      Granule_delete Manager_delete granule t = (Inr (), t(g := None)))"
  by (simp add: Granule_delete_def Granule_deleteRecord_def Manager_delete_def)

theorem published_delete_guard_witness:
  "Granule_delete Manager_delete
      ((''published'', VBool True) # granule_record ''completed'' ''e1'' 10)
      (granules_table ''completed'' ''e1'' 10)
     = (Inl (DeletePublishedGranule
           ''You cannot delete a granule that is published to CMR. Remove it from CMR first''),
        granules_table ''completed'' ''e1'' 10)
   \<and> Granule_delete Manager_delete
      ((''published'', VBool False) # granule_record ''completed'' ''e1'' 10)
      (granules_table ''completed'' ''e1'' 10)
     = (Inr (), (granules_table ''completed'' ''e1'' 10)(''g1'' := None))
   \<and> ((granules_table ''completed'' ''e1'' 10)(''g1'' := None)) ''g1'' = None"
proof -
  have g: "map_of ((''published'', VBool False) # granule_record ''completed'' ''e1'' 10) ''granuleId''
            = Some (VStr ''g1'')"
    by (simp add: granule_record_def)
  from published_delete_guard
         [of "(''published'', VBool True) # granule_record ''completed'' ''e1'' 10"
             Manager_delete "granules_table ''completed'' ''e1'' 10"]
       published_delete_guard
         [of "(''published'', VBool False) # granule_record ''completed'' ''e1'' 10"
             Manager_delete "granules_table ''completed'' ''e1'' 10" "''g1''"]
       g
  show ?thesis by (simp add: Manager_delete_def)
qed

section \<open>Properties of the base model\<close>

lemma knex_first_ok:
  "failure db = None \<Longrightarrow>
   knex_first db cl =
     Inr (case filter (\<lambda>row. list_all (row_matches row) cl) (table_rows db) of
            [] \<Rightarrow> None | row # others \<Rightarrow> Some row)"
  by (simp add: knex_first_def knex_select_def split: list.splits)

lemma get_no_match:
  assumes "failure db = None"
    and "filter (\<lambda>row. row_matches row (WhereObject params)) (table_rows db) = []"
  shows "BasePgModel_get tableName db params = Inl (RecordDoesNotExist tableName params)"
  using assms by (simp add: BasePgModel_get_def knex_first_ok isRecordDefined_def)

lemma row_matches_between:
  "row_matches row (WhereBetween c lo hi) \<longleftrightarrow>
     (\<exists>x. row c = Some (VNum x) \<and> lo \<le> x \<and> x \<le> hi)"
  by (auto split: option.splits val.splits)

lemma row_matches_object:
  "row_matches row (WhereObject params) \<longleftrightarrow> (\<forall>(c, v) \<in> set params. row c = Some v)"
  by (simp add: list_all_iff)

text \<open>
  C7. \<open>exists\<close> never throws for absence: it is true when \<open>get\<close> succeeds on the filter,
  false when \<open>get\<close> fails with \<open>RecordDoesNotExist\<close>, and it passes on every other error of
  \<open>get\<close> unchanged. On a working connection it is false when no row matches the filter,
  and false after the rows that match have been deleted.
\<close>

theorem exists_probes_get:
  "(BasePgModel_get tableName db params = Inr rcd \<longrightarrow>
      BasePgModel_exists tableName db params = Inr True)
   \<and> (BasePgModel_get tableName db params = Inl (RecordDoesNotExist tbl ids) \<longrightarrow>
      BasePgModel_exists tableName db params = Inr False)
   \<and> (BasePgModel_get tableName db params = Inl e \<longrightarrow>
      (\<forall>tbl ids. e \<noteq> RecordDoesNotExist tbl ids) \<longrightarrow>
      BasePgModel_exists tableName db params = Inl e)
   \<and> (failure db = None \<longrightarrow>
      (\<forall>row \<in> set (table_rows db). \<not> row_matches row (WhereObject params)) \<longrightarrow>
      BasePgModel_exists tableName db params = Inr False)
   \<and> (failure db = None \<longrightarrow>
      BasePgModel_exists tableName (snd (BasePgModel_delete tableName db params)) params = Inr False)"
proof (intro conjI impI)
  assume "BasePgModel_get tableName db params = Inl e"
    and "\<forall>tbl ids. e \<noteq> RecordDoesNotExist tbl ids"
  then show "BasePgModel_exists tableName db params = Inl e"
    by (cases e) (simp_all add: BasePgModel_exists_def)
next
  assume f: "failure db = None"
    and n: "\<forall>row \<in> set (table_rows db). \<not> row_matches row (WhereObject params)"
  from n have "filter (\<lambda>row. row_matches row (WhereObject params)) (table_rows db) = []"
    by (simp add: filter_empty_conv)
  from get_no_match [OF f this] show "BasePgModel_exists tableName db params = Inr False"
    by (simp add: BasePgModel_exists_def)
next
  assume f: "failure db = None"
  let ?db = "snd (BasePgModel_delete tableName db params)"
  have d: "?db = db\<lparr>table_rows :=
      filter (\<lambda>row. \<not> row_matches row (WhereObject params)) (table_rows db)\<rparr>"
    using f by (simp add: BasePgModel_delete_def knex_del_def)
  have "failure ?db = None" using f by (simp add: d)
  moreover have "filter (\<lambda>row. row_matches row (WhereObject params)) (table_rows ?db) = []"
    by (simp add: d filter_empty_conv)
  ultimately show "BasePgModel_exists tableName ?db params = Inr False"
    using get_no_match [of ?db params tableName] by (simp add: BasePgModel_exists_def)
qed (simp_all add: BasePgModel_exists_def)

theorem exists_probes_get_witness:
  "BasePgModel_get ''collections'' \<lparr>table_rows = [named_row ''a'' 5], failure = None\<rparr>
      [(''name'', VStr ''a'')] = Inr (named_row ''a'' 5)
   \<and> BasePgModel_exists ''collections'' \<lparr>table_rows = [named_row ''a'' 5], failure = None\<rparr>
      [(''name'', VStr ''a'')] = Inr True
   \<and> BasePgModel_get ''collections'' \<lparr>table_rows = [named_row ''a'' 5], failure = None\<rparr>
      [(''name'', VStr ''b'')] = Inl (RecordDoesNotExist ''collections'' [(''name'', VStr ''b'')])
   \<and> BasePgModel_exists ''collections'' \<lparr>table_rows = [named_row ''a'' 5], failure = None\<rparr>
      [(''name'', VStr ''b'')] = Inr False
   \<and> BasePgModel_exists ''collections''
        (snd (BasePgModel_delete ''collections''
                \<lparr>table_rows = [named_row ''a'' 5], failure = None\<rparr> [(''name'', VStr ''a'')]))
        [(''name'', VStr ''a'')] = Inr False
   \<and> BasePgModel_exists ''collections''
        \<lparr>table_rows = [named_row ''a'' 5],
         failure = Some (StoreError (Some ''KnexTimeoutError'') ''no connection'')\<rparr>
        [(''name'', VStr ''a'')] = Inl (StoreError (Some ''KnexTimeoutError'') ''no connection'')"
proof -
  let ?db = "\<lparr>table_rows = [named_row ''a'' 5], failure = None\<rparr>"
  let ?e = "StoreError (Some ''KnexTimeoutError'') ''no connection''"
  let ?bad = "\<lparr>table_rows = [named_row ''a'' 5], failure = Some ?e\<rparr>"
  have a: "BasePgModel_get ''collections'' ?db [(''name'', VStr ''a'')] = Inr (named_row ''a'' 5)"
    by (simp add: BasePgModel_get_def knex_first_ok isRecordDefined_def named_row_def)
  have b: "BasePgModel_get ''collections'' ?db [(''name'', VStr ''b'')]
             = Inl (RecordDoesNotExist ''collections'' [(''name'', VStr ''b'')])"
    by (simp add: BasePgModel_get_def knex_first_ok isRecordDefined_def named_row_def)
  have c: "BasePgModel_get ''collections'' ?bad [(''name'', VStr ''a'')] = Inl ?e"
    by (simp add: BasePgModel_get_def knex_first_def knex_select_def)
  have n: "\<forall>row \<in> set (table_rows ?db). \<not> row_matches row (WhereObject [(''name'', VStr ''b'')])"
    by (simp add: named_row_def)
  from exists_probes_get [of "''collections''" ?db "[(''name'', VStr ''a'')]" "named_row ''a'' 5"]
       exists_probes_get [of "''collections''" ?db "[(''name'', VStr ''b'')]" _
                             "''collections''" "[(''name'', VStr ''b'')]"]
       exists_probes_get [of "''collections''" ?bad "[(''name'', VStr ''a'')]" _ _ _ ?e]
       a b c n
  show ?thesis by simp
qed

text \<open>
  C8, as amended. The claim as stated fails when both bounds are omitted: the search then
  puts no bound on \<open>updated_at\<close> at all, so a row updated after the current time is found,
  where the range from the epoch to the current time has none.
\<close>

theorem searchWithUpdatedAtRange_counterexample:
  "BasePgModel_searchWithUpdatedAtRange 1000
     \<lparr>table_rows = [named_row ''a'' 2000], failure = None\<rparr> []
     \<lparr>updatedAtFrom = None, updatedAtTo = None\<rparr> = Inr [named_row ''a'' 2000]
   \<and> spec_searchWithUpdatedAtRange 1000
     \<lparr>table_rows = [named_row ''a'' 2000], failure = None\<rparr> []
     \<lparr>updatedAtFrom = None, updatedAtTo = None\<rparr> = []"
  by (simp add: BasePgModel_searchWithUpdatedAtRange_def spec_searchWithUpdatedAtRange_def
      knex_select_def named_row_def)

text \<open>
  C8. What holds: when at least one bound is given, the search finds the records that
  match the filter and whose \<open>updated_at\<close> lies in the range, both ends included, with
  the epoch for an omitted \<open>from\<close> and the current time for an omitted \<open>to\<close>; when both
  bounds are omitted it finds all the records that match the filter.
\<close>

theorem searchWithUpdatedAtRange_bounds:
  "(failure db = None \<longrightarrow>
      updatedAtFrom rng \<noteq> None \<or> updatedAtTo rng \<noteq> None \<longrightarrow>
      BasePgModel_searchWithUpdatedAtRange now db params rng
        = Inr (spec_searchWithUpdatedAtRange now db params rng))
   \<and> (failure db = None \<longrightarrow>
      updatedAtFrom rng = None \<and> updatedAtTo rng = None \<longrightarrow>
      BasePgModel_searchWithUpdatedAtRange now db params rng
        = Inr (filter (\<lambda>row. row_matches row (WhereObject params)) (table_rows db)))
   \<and> (BasePgModel_searchWithUpdatedAtRange now db params rng = Inr found \<longrightarrow>
      updatedAtFrom rng \<noteq> None \<or> updatedAtTo rng \<noteq> None \<longrightarrow>
      set found =
        {row \<in> set (table_rows db).
           (\<forall>(c, v) \<in> set params. row c = Some v)
           \<and> (\<exists>x. row ''updated_at'' = Some (VNum x)
                  \<and> (case updatedAtFrom rng of None \<Rightarrow> 0 | Some d \<Rightarrow> d) \<le> x
                  \<and> x \<le> (case updatedAtTo rng of None \<Rightarrow> now | Some d \<Rightarrow> d))})"
proof (intro conjI impI)
  assume "BasePgModel_searchWithUpdatedAtRange now db params rng = Inr found"
    and "updatedAtFrom rng \<noteq> None \<or> updatedAtTo rng \<noteq> None"
  then have "found = filter (\<lambda>row. row_matches row (WhereObject params)
                  \<and> row_matches row (WhereBetween ''updated_at''
                        (case updatedAtFrom rng of None \<Rightarrow> 0 | Some d \<Rightarrow> d)
                        (case updatedAtTo rng of None \<Rightarrow> now | Some d \<Rightarrow> d)))
       (table_rows db)"
    by (simp add: BasePgModel_searchWithUpdatedAtRange_def knex_select_def
        split: option.splits if_splits)
  then show "set found =
        {row \<in> set (table_rows db).
           (\<forall>(c, v) \<in> set params. row c = Some v)
           \<and> (\<exists>x. row ''updated_at'' = Some (VNum x)
                  \<and> (case updatedAtFrom rng of None \<Rightarrow> 0 | Some d \<Rightarrow> d) \<le> x
                  \<and> x \<le> (case updatedAtTo rng of None \<Rightarrow> now | Some d \<Rightarrow> d))}"
    unfolding row_matches_between row_matches_object by auto
qed (auto simp: BasePgModel_searchWithUpdatedAtRange_def spec_searchWithUpdatedAtRange_def
       knex_select_def)

theorem searchWithUpdatedAtRange_bounds_witness:
  "BasePgModel_searchWithUpdatedAtRange 1000
     \<lparr>table_rows = [named_row ''a'' 2000, named_row ''a'' 10, named_row ''b'' 20], failure = None\<rparr>
     [(''name'', VStr ''a'')]
     \<lparr>updatedAtFrom = Some 5, updatedAtTo = None\<rparr> = Inr [named_row ''a'' 10]
   \<and> BasePgModel_searchWithUpdatedAtRange 1000
     \<lparr>table_rows = [named_row ''a'' 2000, named_row ''a'' 10, named_row ''b'' 20], failure = None\<rparr>
     [(''name'', VStr ''a'')]
     \<lparr>updatedAtFrom = None, updatedAtTo = None\<rparr> = Inr [named_row ''a'' 2000, named_row ''a'' 10]
   \<and> named_row ''a'' 10 \<in>
       {row \<in> set [named_row ''a'' 2000, named_row ''a'' 10, named_row ''b'' 20].
           row ''name'' = Some (VStr ''a'')
           \<and> (\<exists>x. row ''updated_at'' = Some (VNum x) \<and> 5 \<le> x \<and> x \<le> 1000)}"
proof -
  let ?db = "\<lparr>table_rows = [named_row ''a'' 2000, named_row ''a'' 10, named_row ''b'' 20],
              failure = None\<rparr>"
  let ?from = "\<lparr>updatedAtFrom = Some 5, updatedAtTo = None\<rparr>"
  let ?none = "\<lparr>updatedAtFrom = None, updatedAtTo = None\<rparr>"
  have s: "spec_searchWithUpdatedAtRange 1000 ?db [(''name'', VStr ''a'')] ?from = [named_row ''a'' 10]"
    by (simp add: spec_searchWithUpdatedAtRange_def named_row_def)
  from searchWithUpdatedAtRange_bounds [of ?db ?from 1000 "[(''name'', VStr ''a'')]" "[named_row ''a'' 10]"]
       searchWithUpdatedAtRange_bounds [of ?db ?none 1000 "[(''name'', VStr ''a'')]"]
       s
  show ?thesis by (simp add: named_row_def)
qed

section \<open>Properties of the query search client\<close>

lemma in_step_new: "in_step xs b (new_QuerySearchClient xs b)"
  by (simp add: in_step_def new_QuerySearchClient_def)

lemma buffer_head:
  assumes "prefix (y # ys) (drop n xs)"
  shows "n < length xs \<and> y = xs ! n \<and> prefix ys (drop (Suc n) xs)"
proof (cases "n < length xs")
  case True
  then have "drop n xs = xs ! n # drop (Suc n) xs"
    by (simp add: Cons_nth_drop_Suc)
  with assms True show ?thesis by simp
next
  case False
  with assms show ?thesis by simp
qed

lemma fetchRecords_sel:
  "query (fetchRecords c) = query c"
  "limit (fetchRecords c) = limit c"
  "offset (fetchRecords c) = offset c"
  "records (fetchRecords c) = take (limit c) (drop (offset c) (query c))"
  "exhausted (fetchRecords c) = (take (limit c) (drop (offset c) (query c)) = [])"
  "fetches (fetchRecords c) = fetches c @ [(offset c, limit c)]"
  by (simp_all add: fetchRecords_def Let_def)

lemma fill_offset: "offset (fill c) = offset c"
  by (simp add: fill_def fetchRecords_sel)

lemma fill_in_step:
  assumes "in_step xs b c" and "1 \<le> b"
  shows "in_step xs b (fill c)"
proof (cases "records c = [] \<and> \<not> exhausted c")
  case False
  then have "fill c = c" by (auto simp: fill_def)
  with assms show ?thesis by simp
next
  case True
  then have f: "fill c = fetchRecords c" by (simp add: fill_def)
  from assms have q: "query c = xs" and l: "limit c = b" and o: "offset c \<le> length xs"
    by (simp_all add: in_step_def)
  have "take b (drop (offset c) xs) = [] \<longrightarrow> offset c = length xs"
    using assms(2) o by simp
  then show ?thesis
    unfolding f in_step_def fetchRecords_sel q l
    using o by (simp add: take_is_prefix)
qed

lemma fill_empty:
  assumes "in_step xs b c" and "1 \<le> b"
  shows "records (fill c) = [] \<longleftrightarrow> offset c = length xs"
proof (cases "records c")
  case Nil
  from assms have q: "query c = xs" and l: "limit c = b" and o: "offset c \<le> length xs"
    and e: "exhausted c \<longrightarrow> offset c = length xs"
    by (simp_all add: in_step_def)
  show ?thesis
  proof (cases "exhausted c")
    case True
    with Nil e show ?thesis by (simp add: fill_def)
  next
    case False
    with Nil have "records (fill c) = take b (drop (offset c) xs)"
      by (simp add: fill_def fetchRecords_sel q l)
    with assms(2) o show ?thesis by auto
  qed
next
  case (Cons y ys)
  from assms have "prefix (records c) (drop (offset c) xs)"
    by (simp add: in_step_def)
  from buffer_head [OF this [unfolded Cons]] Cons show ?thesis by (simp add: fill_def)
qed

lemma fill_head:
  assumes "in_step xs b c" and "1 \<le> b" and "records (fill c) = y # ys"
  shows "offset c < length xs \<and> y = xs ! offset c \<and> prefix ys (drop (Suc (offset c)) xs)"
proof -
  from fill_in_step [OF assms(1,2)] have "prefix (records (fill c)) (drop (offset c) xs)"
    by (simp add: in_step_def fill_offset)
  from buffer_head [OF this [unfolded assms(3)]] show ?thesis .
qed

lemma peek_in_step:
  assumes "in_step xs b c" and "1 \<le> b"
  shows "fst (peek c) = (if offset c < length xs then Some (xs ! offset c) else None)
    \<and> in_step xs b (snd (peek c))
    \<and> offset (snd (peek c)) = offset c"
proof (cases "records (fill c)")
  case Nil
  with fill_empty [OF assms] fill_in_step [OF assms] show ?thesis
    by (simp add: peek_def Let_def fill_offset)
next
  case (Cons y ys)
  with fill_head [OF assms Cons] fill_in_step [OF assms] show ?thesis
    by (simp add: peek_def Let_def fill_offset)
qed

lemma shift_in_step:
  assumes "in_step xs b c" and "1 \<le> b"
  shows "fst (shift c) = (if offset c < length xs then Some (xs ! offset c) else None)
    \<and> in_step xs b (snd (shift c))
    \<and> offset (snd (shift c)) = (if offset c < length xs then offset c + 1 else offset c)"
proof (cases "records (fill c)")
  case Nil
  with fill_empty [OF assms] fill_in_step [OF assms] show ?thesis
    by (simp add: shift_def Let_def fill_offset)
next
  case (Cons y ys)
  from fill_in_step [OF assms] have q: "query (fill c) = xs" and l: "limit (fill c) = b"
    and e: "\<not> exhausted (fill c)"
    using Cons by (auto simp: in_step_def)
  from fill_head [OF assms Cons] Cons q l e show ?thesis
    by (simp add: shift_def Let_def fill_offset in_step_def)
qed

lemma step_in_step:
  assumes "in_step xs b c" and "1 \<le> b"
  shows "fst (step k c) = (if offset c < length xs then Some (xs ! offset c) else None)"
    and "in_step xs b (snd (step k c))"
    and "offset (snd (step k c)) =
           (if k = Shift \<and> offset c < length xs then offset c + 1 else offset c)"
  using peek_in_step [OF assms] shift_in_step [OF assms] by (cases k; simp)+


lemma shifted_Cons:
  "shifted ((k, r) # tr) = (if k = Shift then r # shifted tr else shifted tr)"
  by (simp add: shifted_def)

lemma run_Cons:
  "run (k # ks) c = ((k, fst (step k c)) # fst (run ks (snd (step k c))), snd (run ks (snd (step k c))))"
  by (simp split: prod.splits)

lemma run_in_step:
  assumes "1 \<le> b"
  shows "in_step xs b c \<Longrightarrow>
    shifted (fst (run ks c)) =
      map Some (take (length (filter (\<lambda>k. k = Shift) ks)) (drop (offset c) xs))
      @ replicate (length (filter (\<lambda>k. k = Shift) ks) - (length xs - offset c)) None
    \<and> in_step xs b (snd (run ks c))
    \<and> offset (snd (run ks c)) = min (offset c + length (filter (\<lambda>k. k = Shift) ks)) (length xs)"
proof (induction ks arbitrary: c)
  case Nil
  then show ?case by (simp add: shifted_def in_step_def)
next
  case (Cons k ks)
  let ?c = "snd (step k c)"
  note st = step_in_step [OF Cons.prems assms, of k]
  note ih = Cons.IH [OF st(2)]
  have off: "offset c \<le> length xs" using Cons.prems by (simp add: in_step_def)
  show ?case
  proof (cases "k = Shift \<and> offset c < length xs")
    case True
    then have d: "drop (offset c) xs = xs ! offset c # drop (Suc (offset c)) xs"
      by (simp add: Cons_nth_drop_Suc)
    from True ih st show ?thesis
      unfolding run_Cons by (simp add: shifted_Cons d Suc_diff_le)
  next
    case False
    show ?thesis
    proof (cases "k = Shift")
      case True
      with False off have e: "offset c = length xs" by simp
      with True ih st show ?thesis
        unfolding run_Cons by (simp add: shifted_Cons)
    next
      case False
      with ih st show ?thesis
        unfolding run_Cons by (simp add: shifted_Cons)
    qed
  qed
qed

lemma step_fetches:
  "fetches (snd (step k c)) =
     fetches c @ (if records c = [] \<and> \<not> exhausted c then [(offset c, limit c)] else [])"
proof (cases "records c = [] \<and> \<not> exhausted c")
  case True
  then have "fill c = fetchRecords c" by (simp add: fill_def)
  with True show ?thesis
    by (cases k) (simp_all add: peek_def shift_def Let_def fetchRecords_sel split: list.splits)
next
  case False
  then have "fill c = c" by (auto simp: fill_def)
  with False show ?thesis
    by (cases k) (simp_all add: peek_def shift_def Let_def split: list.splits)
qed

lemma step_none:
  assumes "fst (step k c) = None"
  shows "records (snd (step k c)) = [] \<and> exhausted (snd (step k c))"
proof -
  from assms have r: "records (fill c) = []" and s: "snd (step k c) = fill c"
    by (cases k; simp add: peek_def shift_def Let_def split: list.splits)+
  show ?thesis
  proof (cases "records c = [] \<and> \<not> exhausted c")
    case True
    then have "fill c = fetchRecords c" by (simp add: fill_def)
    with r show ?thesis unfolding s by (simp add: fetchRecords_sel)
  next
    case False
    then have "fill c = c" by (auto simp: fill_def)
    with r False show ?thesis unfolding s by auto
  qed
qed

lemma step_exhausted:
  assumes "records c = []" and "exhausted c"
  shows "step k c = (None, c)"
  using assms by (cases k) (simp_all add: peek_def shift_def fill_def Let_def)

lemma run_exhausted:
  assumes "records c = []" and "exhausted c"
  shows "run ks c = (map (\<lambda>k. (k, None)) ks, c)"
  using assms by (induction ks) (simp_all add: step_exhausted)


lemmas client_eval =
  new_QuerySearchClient_def fill_def peek_def shift_def fetchRecords_def Let_def

text \<open>
  C2. The cursor is complete and never repeats: for the rows of the query in its sort
  order and a batch size of at least one, whatever calls of \<open>peek\<close> are mixed in, the
  calls of \<open>shift\<close> return the rows one by one, each once and in order, and "none" from
  then on; so shifting until "none" returns exactly the rows. The offset is the number of
  rows handed out, and a call fetches only when the buffer is empty and the sequence not
  yet exhausted: one query, with the batch size as its limit, at that offset. Three rows
  with batch size one take four queries, at the offsets 0, 1, 2 and 3.
\<close>

theorem cursor_complete_no_duplicates:
  assumes "1 \<le> b"
  shows "shifted (fst (run ks (new_QuerySearchClient xs b))) =
      map Some (take (length (filter (\<lambda>k. k = Shift) ks)) xs)
      @ replicate (length (filter (\<lambda>k. k = Shift) ks) - length xs) None
   \<and> offset (snd (run ks (new_QuerySearchClient xs b)))
       = min (length (filter (\<lambda>k. k = Shift) ks)) (length xs)
   \<and> fetches (snd (step k (snd (run ks (new_QuerySearchClient xs b))))) =
       fetches (snd (run ks (new_QuerySearchClient xs b)))
       @ (if records (snd (run ks (new_QuerySearchClient xs b))) = []
             \<and> \<not> exhausted (snd (run ks (new_QuerySearchClient xs b)))
          then [(offset (snd (run ks (new_QuerySearchClient xs b))), b)] else [])
   \<and> shifted (fst (run (replicate (length xs + 1) Shift) (new_QuerySearchClient xs b)))
       = map Some xs @ [None]
   \<and> fetches (snd (run [Peek, Shift, Peek, Shift, Peek, Shift, Peek]
                      (new_QuerySearchClient [x, y, z] 1)))
       = [(0, 1), (1, 1), (2, 1), (3, 1)]
   \<and> fetches (snd (run [Shift, Shift, Shift, Shift] (new_QuerySearchClient [x, y, z] 1)))
       = [(0, 1), (1, 1), (2, 1), (3, 1)]"
proof -
  let ?c = "new_QuerySearchClient xs b"
  have o: "offset ?c = 0" by (simp add: new_QuerySearchClient_def)
  note r = run_in_step [where xs = xs and b = b and c = ?c and ks = ks,
      OF assms in_step_new, unfolded o]
  have 1: "shifted (fst (run ks ?c)) =
      map Some (take (length (filter (\<lambda>k. k = Shift) ks)) xs)
      @ replicate (length (filter (\<lambda>k. k = Shift) ks) - length xs) None"
    using r by simp
  have 2: "offset (snd (run ks ?c)) = min (length (filter (\<lambda>k. k = Shift) ks)) (length xs)"
    using r by simp
  have "limit (snd (run ks ?c)) = b" using r by (simp add: in_step_def)
  then have 3: "fetches (snd (step k (snd (run ks ?c)))) =
       fetches (snd (run ks ?c))
       @ (if records (snd (run ks ?c)) = [] \<and> \<not> exhausted (snd (run ks ?c))
          then [(offset (snd (run ks ?c)), b)] else [])"
    by (simp add: step_fetches)
  have 4: "shifted (fst (run (replicate (length xs + 1) Shift) ?c)) = map Some xs @ [None]"
    using run_in_step [where xs = xs and b = b and c = ?c
        and ks = "replicate (length xs + 1) Shift", OF assms in_step_new, unfolded o]
    by simp
  have 5: "fetches (snd (run [Peek, Shift, Peek, Shift, Peek, Shift, Peek]
                      (new_QuerySearchClient [x, y, z] 1)))
       = [(0, 1), (1, 1), (2, 1), (3, 1)]"
    by (simp add: client_eval)
  have 6: "fetches (snd (run [Shift, Shift, Shift, Shift] (new_QuerySearchClient [x, y, z] 1)))
       = [(0, 1), (1, 1), (2, 1), (3, 1)]"
    by (simp add: client_eval)
  from 1 2 3 4 5 6 show ?thesis by blast
qed

theorem cursor_complete_no_duplicates_witness:
  "(1::nat) \<le> 2
   \<and> shifted (fst (run [Peek, Shift, Shift, Peek, Peek, Shift, Shift]
                     (new_QuerySearchClient [10, 20, 30 :: nat] 2)))
       = [Some 10, Some 20, Some 30, None]
   \<and> offset (snd (run [Peek, Shift, Shift, Peek, Peek, Shift, Shift]
                     (new_QuerySearchClient [10, 20, 30 :: nat] 2))) = 3"
proof -
  have b: "(1::nat) \<le> 2" by simp
  from cursor_complete_no_duplicates
         [OF b, where ks = "[Peek, Shift, Shift, Peek, Peek, Shift, Shift]"
            and xs = "[10, 20, 30 :: nat]" and k = Shift
            and x = "0 :: nat" and y = "0 :: nat" and z = "0 :: nat"]
  show ?thesis by (simp del: run.simps step.simps)
qed

text \<open>
  C5. Exhaustion is stable: once a call has answered "none", every later \<open>peek\<close> and
  \<open>shift\<close> answers "none" too and leaves the client as it was, so no further query is
  sent to the store.
\<close>

theorem exhaustion_is_stable:
  assumes "fst (step k c) = None"
  shows "run ks (snd (step k c)) = (map (\<lambda>k. (k, None)) ks, snd (step k c))
    \<and> fetches (snd (run ks (snd (step k c)))) = fetches (snd (step k c))"
proof -
  from step_none [OF assms] have "records (snd (step k c)) = []" and "exhausted (snd (step k c))"
    by simp_all
  from run_exhausted [OF this] show ?thesis by simp
qed

theorem exhaustion_is_stable_witness:
  "fst (step Peek (snd (step Shift (new_QuerySearchClient [7 :: nat] 1)))) = None
   \<and> run [Peek, Shift, Peek]
        (snd (step Peek (snd (step Shift (new_QuerySearchClient [7 :: nat] 1)))))
      = ([(Peek, None), (Shift, None), (Peek, None)],
         snd (step Peek (snd (step Shift (new_QuerySearchClient [7 :: nat] 1)))))
   \<and> fetches (snd (run [Peek, Shift, Peek]
        (snd (step Peek (snd (step Shift (new_QuerySearchClient [7 :: nat] 1)))))))
      = [(0, 1), (1, 1)]"
proof -
  have n: "fst (step Peek (snd (step Shift (new_QuerySearchClient [7 :: nat] 1)))) = None"
    by (simp add: client_eval)
  have f: "fetches (snd (step Peek (snd (step Shift (new_QuerySearchClient [7 :: nat] 1)))))
            = [(0, 1), (1, 1)]"
    by (simp add: client_eval)
  from exhaustion_is_stable [OF n, of "[Peek, Shift, Peek]"] n f
  show ?thesis by simp
qed

end
